theory Spec2Isabelle
  imports Main "HOL-Library.Char_ord" "HOL-Library.List_Lexorder" "HOL-Library.AList"
    "HOL-Library.Multiset"
begin

section \<open>Python values, errors and the environment\<close>

text \<open>
  The program is untyped Python: a field of a \<open>Character\<close> holds whatever the caller or
  the JSON file supplied. The values the model covers are the ones \<open>json.load\<close> can
  return, floats apart: \<open>None\<close>, booleans, integers, strings, lists, and dicts with
  string keys (a \<open>PDict\<close> lists the items of the dict, each key once; a lookup takes
  the first item of a key). A string is the list of the bytes of its UTF-8 encoding,
  whose lexicographic order is the order in which Python compares the strings.
\<close>

datatype pyval =
    PNone
  | PBool bool
  | PInt int
  | PStr string
  | PList "pyval list"
  | PDict "(string \<times> pyval) list"

text \<open>The exceptions the code of the store can raise on these values.\<close>

datatype error =
    AttributeError
  | TypeError
  | KeyError
  | JSONDecodeError
  | FileNotFoundError
  | NotADirectoryError

type_synonym 'a result = "error + 'a"

text \<open>
  \<open>class Character\<close>: eleven attributes, none of them checked by the class.
\<close>

record Character =
  name :: pyval
  char_class :: pyval
  level :: pyval
  strength :: pyval
  dexterity :: pyval
  constitution :: pyval
  intelligence :: pyval
  wisdom :: pyval
  charisma :: pyval
  created_date :: pyval
  modified_date :: pyval

text \<open>
  A file of the data directory, as \<open>json.load\<close> sees it: text that is not JSON
  (\<open>json.load\<close> raises), or the value of the JSON document. \<open>json.dump\<close> followed
  by \<open>json.load\<close> is taken to give the value back, so a written file holds the value.
\<close>

datatype content = NotJson | Json pyval

text \<open>
  The state the code reads and writes:
  \<^item> \<open>clock\<close> and \<open>ticks\<close>: the wall clock. \<open>clock i\<close> is the string that the
    \<open>i\<close>-th evaluation of \<open>datetime.now().isoformat()\<close> returns, \<open>ticks\<close> counts the
    evaluations so far. Nothing is assumed of the clock; a theorem that needs it not to
    run backwards says so.
  \<^item> \<open>files\<close>: the entries of \<open>self.data_dir\<close>, keyed by their names, in the order the
    file system enumerates them. They are regular files: the program makes no
    directory but \<open>self.data_dir\<close> itself. Names are compared byte by byte, as a
    case-sensitive file system does. Opening a file for writing and unlinking one are
    taken to succeed where the path exists (no permission or space failure, no name
    the platform refuses); where a path leads is decided by \<open>locate\<close> below.
  \<^item> \<open>characters\<close>: the dict \<open>self.characters\<close>, its items in insertion order (the
    order \<open>values()\<close> yields them). Assigning to a present key keeps its place,
    a new key goes last: \<open>AList.update\<close>.
  A \<open>Character\<close> is stored by value: the only caller builds a fresh object for
  every save and drops it.
\<close>

record state =
  clock :: "nat \<Rightarrow> string"
  ticks :: nat
  files :: "(string \<times> content) list"
  characters :: "(pyval \<times> Character) list"

text \<open>\<open>datetime.now().isoformat()\<close>: the next reading of the clock.\<close>

definition now_isoformat :: "state \<Rightarrow> string \<times> state" where
  "now_isoformat s = (clock s (ticks s), s\<lparr>ticks := Suc (ticks s)\<rparr>)"

section \<open>Character\<close>

text \<open>\<open>Character.__init__\<close>: the nine arguments as given, both dates read from the clock.\<close>

definition Character_init ::
  "pyval \<Rightarrow> pyval \<Rightarrow> pyval \<Rightarrow> pyval \<Rightarrow> pyval \<Rightarrow> pyval \<Rightarrow> pyval \<Rightarrow> pyval \<Rightarrow> pyval
    \<Rightarrow> state \<Rightarrow> Character \<times> state" where
  "Character_init nm cls lvl str dex con intl wis cha s =
     (let (created, s1) = now_isoformat s;
          (modified, s2) = now_isoformat s1
      in (\<lparr>name = nm, char_class = cls, level = lvl, strength = str, dexterity = dex,
            constitution = con, intelligence = intl, wisdom = wis, charisma = cha,
            created_date = PStr created, modified_date = PStr modified\<rparr>, s2))"

text \<open>\<open>Character.to_dict\<close>: the dict literal, item by item.\<close>

definition to_dict :: "Character \<Rightarrow> (string \<times> pyval) list" where
  "to_dict c =
     [(''name'', name c), (''class'', char_class c), (''level'', level c),
      (''strength'', strength c), (''dexterity'', dexterity c),
      (''constitution'', constitution c), (''intelligence'', intelligence c),
      (''wisdom'', wisdom c), (''charisma'', charisma c),
      (''created_date'', created_date c), (''modified_date'', modified_date c)]"

text \<open>\<open>dict.get(key, default)\<close>.\<close>

definition dict_get :: "(string \<times> pyval) list \<Rightarrow> string \<Rightarrow> pyval \<Rightarrow> pyval" where
  "dict_get d k dflt = (case map_of d k of None \<Rightarrow> dflt | Some v \<Rightarrow> v)"

text \<open>
  \<open>Character.from_dict\<close>. A value that is not a dict has no \<open>get\<close>: the first
  \<open>data.get\<close> raises \<open>AttributeError\<close> before the constructor runs. On a dict the
  constructor reads the clock twice, and each of the two \<open>data.get(..., datetime.now()
  .isoformat())\<close> reads it once more, whether the key is present or not (the default is
  an argument, evaluated before the call).
\<close>

definition from_dict :: "pyval \<Rightarrow> state \<Rightarrow> Character result \<times> state" where
  "from_dict data s =
     (case data of
        PDict d \<Rightarrow>
          (let (char, s1) =
                 Character_init (dict_get d ''name'' (PStr '''')) (dict_get d ''class'' (PStr ''''))
                   (dict_get d ''level'' (PInt 1)) (dict_get d ''strength'' (PInt 10))
                   (dict_get d ''dexterity'' (PInt 10)) (dict_get d ''constitution'' (PInt 10))
                   (dict_get d ''intelligence'' (PInt 10)) (dict_get d ''wisdom'' (PInt 10))
                   (dict_get d ''charisma'' (PInt 10)) s;
               (t1, s2) = now_isoformat s1;
               char1 = char\<lparr>created_date := dict_get d ''created_date'' (PStr t1)\<rparr>;
               (t2, s3) = now_isoformat s2;
               char2 = char1\<lparr>modified_date := dict_get d ''modified_date'' (PStr t2)\<rparr>
           in (Inr char2, s3))
      | _ \<Rightarrow> (Inl AttributeError, s))"

section \<open>CharacterDatabase\<close>

text \<open>
  The file of a name, \<open>f"{name.replace(' ', '_')}.json"\<close>, as \<open>save_character\<close> and
  \<open>delete_character\<close> both compute it.
\<close>

definition filename :: "string \<Rightarrow> string" where
  "filename n = map (\<lambda>c. if c = CHR '' '' then CHR ''_'' else c) n @ ''.json''"

text \<open>
  Where \<open>self.data_dir / filename\<close> leads. \<open>pathlib\<close> cuts the path at the separators
  and drops the empty parts and the parts \<open>.\<close>; a path that starts with the separator
  is absolute and replaces the directory. What is left is
  \<^item> one part: the entry of that name in the directory (\<open>./Bob.json\<close> is \<open>Bob.json\<close>);
  \<^item> several parts, the first not \<open>..\<close>: a path through the entry named by the first
    part, which would have to be a directory;
  \<^item> an absolute path or one that starts with \<open>..\<close>: a place outside the directory
    (taken not to lead back into it). No part at all is the directory itself; a file
    name ends in \<open>.json\<close> and always has a last part.
\<close>

fun split_path :: "string \<Rightarrow> string list" where
  "split_path [] = [[]]"
| "split_path (c # cs) =
     (if c = CHR ''/'' then [] # split_path cs
      else (case split_path cs of [] \<Rightarrow> [[c]] | p # ps \<Rightarrow> (c # p) # ps))"

definition path_parts :: "string \<Rightarrow> string list" where
  "path_parts f = filter (\<lambda>p. p \<noteq> [] \<and> p \<noteq> ''.'') (split_path f)"

datatype location = Entry string | Through string | Outside

definition locate :: "string \<Rightarrow> location" where
  "locate f =
     (if take 1 f = ''/'' then Outside
      else (case path_parts f of
              [] \<Rightarrow> Outside
            | [e] \<Rightarrow> if e = ''..'' then Outside else Entry e
            | d # _ \<Rightarrow> if d = ''..'' then Outside else Through d))"

text \<open>
  A dict key must be hashable (a list or a dict raises \<open>TypeError\<close>), and keys are
  compared with \<open>==\<close>, under which \<open>True\<close> is \<open>1\<close> and \<open>False\<close> is \<open>0\<close>: the
  key is kept as the integer.
\<close>

fun dict_key :: "pyval \<Rightarrow> pyval result" where
  "dict_key (PList xs) = Inl TypeError"
| "dict_key (PDict d) = Inl TypeError"
| "dict_key (PBool b) = Inr (PInt (if b then 1 else 0))"
| "dict_key v = Inr v"

text \<open>
  \<open>self.data_dir.glob("*.json")\<close>: the files directly in the directory (no separator
  in the path) whose name ends in \<open>.json\<close>, in the order of the file system.
\<close>

definition is_json_file :: "string \<Rightarrow> bool" where
  "is_json_file f \<longleftrightarrow> CHR ''/'' \<notin> set f \<and> drop (length f - 5) f = ''.json''"

definition glob_json :: "(string \<times> content) list \<Rightarrow> (string \<times> content) list" where
  "glob_json fs = filter (\<lambda>p. is_json_file (fst p)) fs"

text \<open>
  The loop of \<open>load_all_characters\<close> over the files found. An exception leaves the
  loop at once, with the entries inserted so far.
\<close>

fun load_files :: "(string \<times> content) list \<Rightarrow> state \<Rightarrow> unit result \<times> state" where
  "load_files [] s = (Inr (), s)"
| "load_files ((file_path, content) # rest) s =
     (case content of
        NotJson \<Rightarrow> (Inl JSONDecodeError, s)
      | Json data \<Rightarrow>
          (case from_dict data s of
             (Inl e, s1) \<Rightarrow> (Inl e, s1)
           | (Inr char, s1) \<Rightarrow>
               (case dict_key (name char) of
                  Inl e \<Rightarrow> (Inl e, s1)
                | Inr k \<Rightarrow>
                    load_files rest (s1\<lparr>characters := AList.update k char (characters s1)\<rparr>))))"

definition load_all_characters :: "state \<Rightarrow> unit result \<times> state" where
  "load_all_characters s =
     (let s0 = s\<lparr>characters := []\<rparr> in load_files (glob_json (files s0)) s0)"

text \<open>
  \<open>save_character\<close>: the clock is read and \<open>modified_date\<close> set first; a name that is
  not a string has no \<open>replace\<close> (\<open>AttributeError\<close>, nothing written). Then the file
  is opened for writing:
  \<^item> an entry of the directory is created or overwritten, and the entry of the mapping
    assigned;
  \<^item> a path through an entry fails, since no entry is a directory: \<open>open\<close> raises
    \<open>NotADirectoryError\<close> when the entry is a file and \<open>FileNotFoundError\<close> when there
    is none, and nothing is written or assigned;
  \<^item> a file outside the directory is written there: the directory stays as it is and
    the entry of the mapping is assigned.
\<close>

definition save_character :: "Character \<Rightarrow> state \<Rightarrow> unit result \<times> state" where
  "save_character character s =
     (let (t, s1) = now_isoformat s;
          char = character\<lparr>modified_date := PStr t\<rparr>
      in case name char of
           PStr n \<Rightarrow>
             (case locate (filename n) of
                Entry e \<Rightarrow>
                  (let s2 = s1\<lparr>files := AList.update e (Json (PDict (to_dict char))) (files s1)\<rparr>
                   in (Inr (), s2\<lparr>characters := AList.update (PStr n) char (characters s2)\<rparr>))
              | Through d \<Rightarrow>
                  (Inl (if d \<in> set (map fst (files s1)) then NotADirectoryError
                        else FileNotFoundError), s1)
              | Outside \<Rightarrow>
                  (Inr (), s1\<lparr>characters := AList.update (PStr n) char (characters s1)\<rparr>))
         | _ \<Rightarrow> (Inl AttributeError, s1))"

text \<open>
  \<open>delete_character\<close>: the file is unlinked when it exists, and only then is the
  entry deleted; \<open>del\<close> of an absent key raises \<open>KeyError\<close>, after the unlink. The
  file is looked up in the directory under its name as computed, which is where the
  path leads for a name without separator (\<open>locate_filename\<close>).
\<close>

definition delete_character :: "pyval \<Rightarrow> state \<Rightarrow> unit result \<times> state" where
  "delete_character nm s =
     (case nm of
        PStr n \<Rightarrow>
          (let s1 = (if filename n \<in> set (map fst (files s))
                     then s\<lparr>files := AList.delete (filename n) (files s)\<rparr> else s)
           in if PStr n \<in> set (map fst (characters s1))
              then (Inr (), s1\<lparr>characters := AList.delete (PStr n) (characters s1)\<rparr>)
              else (Inl KeyError, s1))
      | _ \<Rightarrow> (Inl AttributeError, s))"

text \<open>\<open>get_character\<close>: \<open>dict.get\<close>, \<open>None\<close> for an absent key.\<close>

definition get_character :: "pyval \<Rightarrow> state \<Rightarrow> Character option result" where
  "get_character nm s =
     (case dict_key nm of Inl e \<Rightarrow> Inl e | Inr k \<Rightarrow> Inr (map_of (characters s) k))"

text \<open>
  \<open>str.lower\<close>. Python lowers every cased letter of Unicode, from tables that are not
  in the repository: \<open>list_characters\<close> takes the function as a parameter
  \<open>str_lower\<close>. On ASCII text it is \<open>lower\<close>: the capital letters \<open>A\<close> to \<open>Z\<close> go to the
  small ones and every other character stays.
\<close>

definition ascii :: "string \<Rightarrow> bool" where
  "ascii n \<longleftrightarrow> list_all (\<lambda>c. of_char c < (128 :: nat)) n"

definition lower_char :: "char \<Rightarrow> char" where
  "lower_char c =
     (case map_of (zip ''ABCDEFGHIJKLMNOPQRSTUVWXYZ'' ''abcdefghijklmnopqrstuvwxyz'') c of
        None \<Rightarrow> c
      | Some l \<Rightarrow> l)"

definition lower :: "string \<Rightarrow> string" where
  "lower s = map lower_char s"

text \<open>
  The sort key \<open>lambda c: c.name.lower()\<close>: a name that is not a string has no
  \<open>lower\<close>.
\<close>

definition name_key :: "(string \<Rightarrow> string) \<Rightarrow> Character \<Rightarrow> (string \<times> Character) option" where
  "name_key str_lower c = (case name c of PStr n \<Rightarrow> Some (str_lower n, c) | _ \<Rightarrow> None)"

text \<open>
  \<open>list_characters\<close>: \<open>sorted\<close> computes the key of every value (the first failure
  raises), then sorts stably by the keys, strings compared byte by byte. Nothing is
  written: the function returns no state.
\<close>

definition list_characters :: "(string \<Rightarrow> string) \<Rightarrow> state \<Rightarrow> Character list result" where
  "list_characters str_lower s =
     (case those (map (name_key str_lower) (map snd (characters s))) of
        None \<Rightarrow> Inl AttributeError
      | Some keyed \<Rightarrow> Inr (map snd (sort_key fst keyed)))"

section \<open>Notions used to state the properties\<close>

text \<open>
  The records of the files, as the description of \<open>Load\<close> words it: every file found
  is deserialised, in the order of enumeration, and gives the pair of the \<open>name\<close>
  field of its record (as a dict key) and the record. This is the statement side of
  \<open>load_files\<close>, which inserts the pairs into \<open>self.characters\<close> one by one.
\<close>

fun file_records :: "(string \<times> content) list \<Rightarrow> state \<Rightarrow> (pyval \<times> Character) list" where
  "file_records [] s = []"
| "file_records ((file_path, content) # rest) s =
     (case content of
        NotJson \<Rightarrow> []
      | Json data \<Rightarrow>
          (case from_dict data s of
             (Inl e, s1) \<Rightarrow> []
           | (Inr char, s1) \<Rightarrow>
               (case dict_key (name char) of
                  Inl e \<Rightarrow> []
                | Inr k \<Rightarrow> (k, char) # file_records rest s1)))"

text \<open>
  A file as \<open>save_character\<close> leaves it: a JSON object whose \<open>name\<close> is a string, stored
  under the file name of that string. A directory is consistent when no path occurs
  twice and every file that \<open>glob\<close> finds is of this kind; the directory that the
  program has written from an empty one, under names without path separator, is (see
  \<open>save_character_consistent\<close> and \<open>delete_character_consistent\<close>).
\<close>

fun record_file :: "string \<times> content \<Rightarrow> bool" where
  "record_file (file_path, Json (PDict d)) =
     (case map_of d ''name'' of Some (PStr n) \<Rightarrow> file_path = filename n | _ \<Rightarrow> False)"
| "record_file (file_path, _) = False"

definition consistent_dir :: "(string \<times> content) list \<Rightarrow> bool" where
  "consistent_dir fs \<longleftrightarrow> distinct (map fst fs) \<and> list_all record_file (glob_json fs)"

section \<open>Example data\<close>

text \<open>
  A clock that shows three successive seconds, a store on an empty directory, and a
  character sheet with a given name. The closed instances of the theorems below are
  evaluated on them.
\<close>

definition example_clock :: "nat \<Rightarrow> string" where
  "example_clock i =
     (if i = 0 then ''2024-01-01T00:00:00''
      else if i = 1 then ''2024-01-01T00:00:01'' else ''2024-01-01T00:00:02'')"

definition empty_store :: state where
  "empty_store = \<lparr>clock = example_clock, ticks = 0, files = [], characters = []\<rparr>"

definition sheet :: "string \<Rightarrow> int \<Rightarrow> string \<Rightarrow> Character" where
  "sheet n lvl created =
     \<lparr>name = PStr n, char_class = PStr ''Fighter'', level = PInt lvl, strength = PInt 16,
      dexterity = PInt 12, constitution = PInt 14, intelligence = PInt 8, wisdom = PInt 10,
      charisma = PInt 13, created_date = PStr created, modified_date = PStr created\<rparr>"

text \<open>A directory with a file \<open>Ghost.json\<close> and no entry in memory for it.\<close>

definition ghost_store :: state where
  "ghost_store =
     empty_store\<lparr>files := [(''Ghost.json'',
       Json (PDict (to_dict (sheet ''Ghost'' 1 ''2023-12-31T23:59:59''))))]\<rparr>"

text \<open>
  A directory of two files, written by hand, whose contents carry the same name,
  which is the file name of neither.
\<close>

definition twin_store :: state where
  "twin_store =
     empty_store\<lparr>files :=
       [(''x.json'', Json (PDict [(''name'', PStr ''Ann''), (''level'', PInt 1)])),
        (''notes.txt'', NotJson),
        (''y.json'', Json (PDict [(''name'', PStr ''Ann''), (''level'', PInt 2)]))],
       characters := [(PStr ''Old'', sheet ''Old'' 9 ''2023-12-31T23:59:59'')]\<rparr>"

text \<open>A store in which the character Aria was saved at the first reading of the clock.\<close>

definition aria_store :: state where
  "aria_store = snd (save_character (sheet ''Aria'' 1 ''2024-01-01T00:00:00'') empty_store)"



section \<open>Serialisation\<close>

lemma dict_get_to_dict:
  "dict_get (to_dict c) ''name'' d = name c"
  "dict_get (to_dict c) ''class'' d = char_class c"
  "dict_get (to_dict c) ''level'' d = level c"
  "dict_get (to_dict c) ''strength'' d = strength c"
  "dict_get (to_dict c) ''dexterity'' d = dexterity c"
  "dict_get (to_dict c) ''constitution'' d = constitution c"
  "dict_get (to_dict c) ''intelligence'' d = intelligence c"
  "dict_get (to_dict c) ''wisdom'' d = wisdom c"
  "dict_get (to_dict c) ''charisma'' d = charisma c"
  "dict_get (to_dict c) ''created_date'' d = created_date c"
  "dict_get (to_dict c) ''modified_date'' d = modified_date c"
  by (simp_all add: dict_get_def to_dict_def)

text \<open>What \<open>from_dict\<close> returns on a dict, field by field.\<close>

lemma from_dict_dict:
  "from_dict (PDict d) s =
     (Inr \<lparr>name = dict_get d ''name'' (PStr ''''), char_class = dict_get d ''class'' (PStr ''''),
           level = dict_get d ''level'' (PInt 1), strength = dict_get d ''strength'' (PInt 10),
           dexterity = dict_get d ''dexterity'' (PInt 10),
           constitution = dict_get d ''constitution'' (PInt 10),
           intelligence = dict_get d ''intelligence'' (PInt 10),
           wisdom = dict_get d ''wisdom'' (PInt 10), charisma = dict_get d ''charisma'' (PInt 10),
           created_date = dict_get d ''created_date'' (PStr (clock s (ticks s + 2))),
           modified_date = dict_get d ''modified_date'' (PStr (clock s (ticks s + 3)))\<rparr>,
      s\<lparr>ticks := ticks s + 4\<rparr>)"
  by (simp add: from_dict_def Character_init_def now_isoformat_def eval_nat_numeral)

lemma from_dict_to_dict:
  "from_dict (PDict (to_dict c)) s = (Inr c, s\<lparr>ticks := ticks s + 4\<rparr>)"
  by (simp add: from_dict_dict dict_get_to_dict)

lemma example_clock_mono: "i \<le> j \<Longrightarrow> example_clock i \<le> example_clock j"
  by (simp add: example_clock_def)

text \<open>
  C1. Deserialising the serialisation of a character gives the character back, equal
  in all eleven fields: the two dates are the ones of the character, although
  \<open>from_dict\<close> reads the clock four times on the way.
\<close>

theorem roundtrip_from_dict_to_dict:
  "fst (from_dict (PDict (to_dict c)) s) = Inr c"
  by (simp add: from_dict_dict dict_get_to_dict)

text \<open>
  C2. On the empty dict \<open>from_dict\<close> returns the record with empty name and class,
  level 1, the six scores 10, and both dates read from the clock during the call, so
  no earlier than the time \<open>t0\<close> of the call when the clock does not run backwards.
  On every dict it returns a record (it raises nothing), each field being the value
  of its key, or the default when the key is absent.
\<close>

theorem from_dict_defaults:
  assumes mono: "\<forall>i j. i \<le> j \<longrightarrow> clock s i \<le> clock s j"
    and call: "t0 \<le> clock s (ticks s)"
  shows "(\<exists>c s' tc tm. from_dict (PDict []) s = (Inr c, s') \<and>
            name c = PStr '''' \<and> char_class c = PStr '''' \<and> level c = PInt 1 \<and>
            strength c = PInt 10 \<and> dexterity c = PInt 10 \<and> constitution c = PInt 10 \<and>
            intelligence c = PInt 10 \<and> wisdom c = PInt 10 \<and> charisma c = PInt 10 \<and>
            created_date c = PStr tc \<and> t0 \<le> tc \<and> modified_date c = PStr tm \<and> t0 \<le> tm) \<and>
         (\<forall>d. \<exists>c s'. from_dict (PDict d) s = (Inr c, s') \<and>
            name c = (case map_of d ''name'' of None \<Rightarrow> PStr '''' | Some v \<Rightarrow> v) \<and>
            char_class c = (case map_of d ''class'' of None \<Rightarrow> PStr '''' | Some v \<Rightarrow> v) \<and>
            level c = (case map_of d ''level'' of None \<Rightarrow> PInt 1 | Some v \<Rightarrow> v) \<and>
            strength c = (case map_of d ''strength'' of None \<Rightarrow> PInt 10 | Some v \<Rightarrow> v) \<and>
            dexterity c = (case map_of d ''dexterity'' of None \<Rightarrow> PInt 10 | Some v \<Rightarrow> v) \<and>
            constitution c = (case map_of d ''constitution'' of None \<Rightarrow> PInt 10 | Some v \<Rightarrow> v) \<and>
            intelligence c = (case map_of d ''intelligence'' of None \<Rightarrow> PInt 10 | Some v \<Rightarrow> v) \<and>
            wisdom c = (case map_of d ''wisdom'' of None \<Rightarrow> PInt 10 | Some v \<Rightarrow> v) \<and>
            charisma c = (case map_of d ''charisma'' of None \<Rightarrow> PInt 10 | Some v \<Rightarrow> v) \<and>
            created_date c =
              (case map_of d ''created_date'' of
                 None \<Rightarrow> PStr (clock s (ticks s + 2)) | Some v \<Rightarrow> v) \<and>
            modified_date c =
              (case map_of d ''modified_date'' of
                 None \<Rightarrow> PStr (clock s (ticks s + 3)) | Some v \<Rightarrow> v))"
proof -
  have later: "t0 \<le> clock s (ticks s + k)" for k
  proof -
    have "clock s (ticks s) \<le> clock s (ticks s + k)"
      using mono by simp
    with call show ?thesis
      by (rule order_trans)
  qed
  have empty: "\<exists>c s' tc tm. from_dict (PDict []) s = (Inr c, s') \<and>
            name c = PStr '''' \<and> char_class c = PStr '''' \<and> level c = PInt 1 \<and>
            strength c = PInt 10 \<and> dexterity c = PInt 10 \<and> constitution c = PInt 10 \<and>
            intelligence c = PInt 10 \<and> wisdom c = PInt 10 \<and> charisma c = PInt 10 \<and>
            created_date c = PStr tc \<and> t0 \<le> tc \<and> modified_date c = PStr tm \<and> t0 \<le> tm"
    using later [of 2] later [of 3] by (simp add: from_dict_dict dict_get_def)
  have every: "\<exists>c s'. from_dict (PDict d) s = (Inr c, s') \<and>
            name c = (case map_of d ''name'' of None \<Rightarrow> PStr '''' | Some v \<Rightarrow> v) \<and>
            char_class c = (case map_of d ''class'' of None \<Rightarrow> PStr '''' | Some v \<Rightarrow> v) \<and>
            level c = (case map_of d ''level'' of None \<Rightarrow> PInt 1 | Some v \<Rightarrow> v) \<and>
            strength c = (case map_of d ''strength'' of None \<Rightarrow> PInt 10 | Some v \<Rightarrow> v) \<and>
            dexterity c = (case map_of d ''dexterity'' of None \<Rightarrow> PInt 10 | Some v \<Rightarrow> v) \<and>
            constitution c = (case map_of d ''constitution'' of None \<Rightarrow> PInt 10 | Some v \<Rightarrow> v) \<and>
            intelligence c = (case map_of d ''intelligence'' of None \<Rightarrow> PInt 10 | Some v \<Rightarrow> v) \<and>
            wisdom c = (case map_of d ''wisdom'' of None \<Rightarrow> PInt 10 | Some v \<Rightarrow> v) \<and>
            charisma c = (case map_of d ''charisma'' of None \<Rightarrow> PInt 10 | Some v \<Rightarrow> v) \<and>
            created_date c =
              (case map_of d ''created_date'' of
                 None \<Rightarrow> PStr (clock s (ticks s + 2)) | Some v \<Rightarrow> v) \<and>
            modified_date c =
              (case map_of d ''modified_date'' of
                 None \<Rightarrow> PStr (clock s (ticks s + 3)) | Some v \<Rightarrow> v)" for d
    by (simp add: from_dict_dict dict_get_def split: option.split)
  from empty every show ?thesis
    by blast
qed

theorem from_dict_defaults_witness:
  "\<exists>c s' tc tm. from_dict (PDict []) empty_store = (Inr c, s') \<and>
     name c = PStr '''' \<and> level c = PInt 1 \<and> strength c = PInt 10 \<and>
     created_date c = PStr tc \<and> ''2024-01-01T00:00:00'' \<le> tc \<and>
     modified_date c = PStr tm \<and> ''2024-01-01T00:00:00'' \<le> tm"
proof -
  have mono: "\<forall>i j. i \<le> j \<longrightarrow> clock empty_store i \<le> clock empty_store j"
    by (simp add: empty_store_def example_clock_mono)
  have call: "''2024-01-01T00:00:00'' \<le> clock empty_store (ticks empty_store)"
    by (simp add: empty_store_def example_clock_def)
  from from_dict_defaults [OF mono call] show ?thesis
    by blast
qed

section \<open>Saving and deleting\<close>

text \<open>The file name of a name without separator is an entry of the directory.\<close>

lemma split_path_plain: "CHR ''/'' \<notin> set f \<Longrightarrow> split_path f = [f]"
  by (induction f) auto

lemma filename_separator: "CHR ''/'' \<in> set (filename n) \<longleftrightarrow> CHR ''/'' \<in> set n"
  by (auto simp: filename_def)

lemma locate_filename:
  assumes "CHR ''/'' \<notin> set n"
  shows "locate (filename n) = Entry (filename n)"
proof -
  from assms have plain: "CHR ''/'' \<notin> set (filename n)"
    by (simp add: filename_separator)
  then have parts: "split_path (filename n) = [filename n]"
    by (rule split_path_plain)
  have long: "5 \<le> length (filename n)"
    by (simp add: filename_def)
  then have ne: "filename n \<noteq> []" "filename n \<noteq> ''.''" "filename n \<noteq> ''..''"
    by auto
  have "take 1 (filename n) \<noteq> ''/''"
  proof
    assume "take 1 (filename n) = ''/''"
    then have "CHR ''/'' \<in> set (take 1 (filename n))"
      by simp
    then have "CHR ''/'' \<in> set (filename n)"
      by (rule in_set_takeD)
    with plain show False ..
  qed
  with parts ne show ?thesis
    by (simp add: locate_def path_parts_def)
qed

text \<open>A save of a character whose name is a string without separator, in one equation.\<close>

lemma save_character_str:
  assumes "name c = PStr n" and "CHR ''/'' \<notin> set n"
  shows "save_character c s =
    (Inr (), s\<lparr>ticks := Suc (ticks s),
        files := AList.update (filename n)
          (Json (PDict (to_dict (c\<lparr>modified_date := PStr (clock s (ticks s))\<rparr>)))) (files s),
        characters := AList.update (PStr n) (c\<lparr>modified_date := PStr (clock s (ticks s))\<rparr>)
          (characters s)\<rparr>)"
  using assms by (simp add: save_character_def now_isoformat_def Let_def locate_filename)

lemma alist_delete_absent: "k \<notin> fst ` set xs \<Longrightarrow> AList.delete k xs = xs"
  by (induction xs) auto

text \<open>
  A delete of a string name, in one equation: the file is gone whatever the outcome,
  the outcome depends on the entry alone.
\<close>

lemma delete_character_str:
  "delete_character (PStr n) s =
     (if PStr n \<in> fst ` set (characters s) then Inr () else Inl KeyError,
      s\<lparr>files := AList.delete (filename n) (files s),
        characters := AList.delete (PStr n) (characters s)\<rparr>)"
  by (simp add: delete_character_def Let_def alist_delete_absent)

lemma filter_key_update:
  "distinct (map fst xs) \<Longrightarrow> filter (\<lambda>p. fst p = k) (AList.update k v xs) = [(k, v)]"
proof (induction xs)
  case Nil
  then show ?case by simp
next
  case (Cons p ps)
  have "fst q \<noteq> fst p" if "q \<in> set ps" for q
    using that Cons.prems by (auto simp: image_iff)
  then have absent: "filter (\<lambda>q. fst q = fst p) ps = []"
    by (simp add: filter_empty_conv)
  show ?case
  proof (cases "fst p = k")
    case True
    with absent show ?thesis by simp
  next
    case False
    with Cons show ?thesis by simp
  qed
qed

lemma sheet_name: "name (sheet n lvl created) = PStr n"
  by (simp add: sheet_def)

text \<open>What a written file holds, item by item, and what it deserialises to.\<close>

lemma to_dict_stamped:
  "to_dict (c\<lparr>modified_date := m\<rparr>) =
     [(''name'', name c), (''class'', char_class c), (''level'', level c),
      (''strength'', strength c), (''dexterity'', dexterity c),
      (''constitution'', constitution c), (''intelligence'', intelligence c),
      (''wisdom'', wisdom c), (''charisma'', charisma c),
      (''created_date'', created_date c), (''modified_date'', m)]"
  by (simp add: to_dict_def)

lemma from_dict_to_dict_fst: "fst (from_dict (PDict (to_dict c)) t) = Inr c"
  by (simp add: from_dict_to_dict)

text \<open>
  C4. After a character named \<open>n\<close> (``Bob'', or any name without path separator) is
  saved and then deleted, \<open>get_character\<close> returns \<open>None\<close> for the name, the directory
  has no file of the name, and a second delete returns the \<open>KeyError\<close> to its caller.
  Every delete of a name that has no entry in memory returns \<open>KeyError\<close>.
\<close>

theorem delete_removes_both_views:
  assumes "name c = PStr n" and "CHR ''/'' \<notin> set n"
    and "save_character c s = (r1, s1)"
    and "delete_character (PStr n) s1 = (r2, s2)"
    and "delete_character (PStr n) s2 = (r3, s3)"
  shows "r1 = Inr () \<and> r2 = Inr () \<and> get_character (PStr n) s2 = Inr None \<and>
         filename n \<notin> fst ` set (files s2) \<and> r3 = Inl KeyError \<and>
         (\<forall>m t. PStr m \<notin> fst ` set (characters t) \<longrightarrow>
            fst (delete_character (PStr m) t) = Inl KeyError)"
proof -
  from assms(1,2,3) have r1: "r1 = Inr ()"
    and s1: "PStr n \<in> fst ` set (characters s1)"
    by (auto simp: save_character_str dom_update)
  from assms(4) s1 have r2: "r2 = Inr ()"
    and s2: "s2 = s1\<lparr>files := AList.delete (filename n) (files s1),
        characters := AList.delete (PStr n) (characters s1)\<rparr>"
    by (auto simp: delete_character_str)
  have gone: "PStr n \<notin> fst ` set (characters s2)" "filename n \<notin> fst ` set (files s2)"
    by (simp_all add: s2 delete_notin_dom)
  from gone(1) have get: "get_character (PStr n) s2 = Inr None"
    by (simp add: get_character_def map_of_eq_None_iff)
  from assms(5) gone(1) have r3: "r3 = Inl KeyError"
    by (auto simp: delete_character_str)
  have "fst (delete_character (PStr m) t) = Inl KeyError"
    if "PStr m \<notin> fst ` set (characters t)" for m t
    using that by (simp add: delete_character_str)
  with r1 r2 get gone(2) r3 show ?thesis
    by blast
qed

theorem delete_removes_both_views_witness:
  "filename ''Bob'' = ''Bob.json'' \<and>
   files (snd (save_character (sheet ''Bob'' 3 ''2024-01-01T00:00:00'') empty_store)) \<noteq> [] \<and>
   get_character (PStr ''Bob'')
     (snd (delete_character (PStr ''Bob'')
        (snd (save_character (sheet ''Bob'' 3 ''2024-01-01T00:00:00'') empty_store)))) = Inr None \<and>
   ''Bob.json'' \<notin> fst ` set (files
     (snd (delete_character (PStr ''Bob'')
        (snd (save_character (sheet ''Bob'' 3 ''2024-01-01T00:00:00'') empty_store))))) \<and>
   fst (delete_character (PStr ''Bob'')
     (snd (delete_character (PStr ''Bob'')
        (snd (save_character (sheet ''Bob'' 3 ''2024-01-01T00:00:00'') empty_store))))) =
     Inl KeyError"
proof -
  have f: "filename ''Bob'' = ''Bob.json''"
    by (simp add: filename_def)
  have plain: "CHR ''/'' \<notin> set ''Bob''"
    by simp
  have written: "files (snd (save_character (sheet ''Bob'' 3 ''2024-01-01T00:00:00'') empty_store))
      \<noteq> []"
    by (simp add: save_character_str sheet_name empty_store_def)
  note delete_removes_both_views [OF sheet_name [of "''Bob''" 3 "''2024-01-01T00:00:00''"] plain
      prod.collapse [symmetric] prod.collapse [symmetric] prod.collapse [symmetric],
      of empty_store]
  with f written show ?thesis
    by simp
qed

text \<open>
  C9. A delete of a name that has no entry in memory, while the file of the name
  exists: the file is removed from the directory, and then \<open>KeyError\<close> is returned.
  The call fails and the directory has changed.
\<close>

theorem delete_unlinks_before_key_error:
  assumes "PStr n \<notin> fst ` set (characters s)"
    and "filename n \<in> fst ` set (files s)"
  shows "delete_character (PStr n) s =
           (Inl KeyError, s\<lparr>files := AList.delete (filename n) (files s)\<rparr>) \<and>
         filename n \<notin> fst ` set (AList.delete (filename n) (files s)) \<and>
         AList.delete (filename n) (files s) \<noteq> files s"
proof -
  have "AList.delete (filename n) (files s) \<noteq> files s"
    using assms(2) delete_notin_dom [of "filename n" "files s"] by auto
  with assms(1) show ?thesis
    by (simp add: delete_character_str delete_notin_dom)
qed

theorem delete_unlinks_before_key_error_witness:
  "delete_character (PStr ''Ghost'') ghost_store = (Inl KeyError, empty_store) \<and>
   files ghost_store \<noteq> files empty_store"
proof -
  have absent: "PStr ''Ghost'' \<notin> fst ` set (characters ghost_store)"
    by (simp add: ghost_store_def empty_store_def)
  have present: "filename ''Ghost'' \<in> fst ` set (files ghost_store)"
    by (simp add: ghost_store_def empty_store_def filename_def)
  have "ghost_store\<lparr>files := AList.delete (filename ''Ghost'') (files ghost_store)\<rparr> = empty_store"
    by (simp add: ghost_store_def empty_store_def filename_def)
  with delete_unlinks_before_key_error [OF absent present] show ?thesis
    by (simp add: ghost_store_def empty_store_def)
qed

text \<open>
  C8. A character saved under the name \<open>a\<close> and then saved under another name \<open>b\<close>
  (names without path separator): the second save adds the entry and the file of \<open>b\<close>
  and removes nothing. Both entries are in memory, both file names are in the
  directory, the file of \<open>b\<close> deserialises to the second record, and the file of \<open>a\<close>
  still deserialises to the first unless the two names have the same file name.
\<close>

theorem rename_keeps_old_entry:
  assumes "name c1 = PStr a" and "name c2 = PStr b" and "a \<noteq> b"
    and "CHR ''/'' \<notin> set a" and "CHR ''/'' \<notin> set b"
    and "save_character c1 s = (r1, s1)"
    and "save_character c2 s1 = (r2, s2)"
  shows "r1 = Inr () \<and> r2 = Inr () \<and>
         get_character (PStr a) s2 = Inr (Some (c1\<lparr>modified_date := PStr (clock s (ticks s))\<rparr>)) \<and>
         get_character (PStr b) s2 =
           Inr (Some (c2\<lparr>modified_date := PStr (clock s (Suc (ticks s)))\<rparr>)) \<and>
         filename a \<in> fst ` set (files s2) \<and> filename b \<in> fst ` set (files s2) \<and>
         (\<exists>data. map_of (files s2) (filename b) = Some (Json data) \<and>
            (\<forall>t. fst (from_dict data t) =
               Inr (c2\<lparr>modified_date := PStr (clock s (Suc (ticks s)))\<rparr>))) \<and>
         (filename a \<noteq> filename b \<longrightarrow>
            map_of (files s2) (filename a) =
              Some (Json (PDict (to_dict (c1\<lparr>modified_date := PStr (clock s (ticks s))\<rparr>)))) \<and>
            (\<exists>data. map_of (files s2) (filename a) = Some (Json data) \<and>
               (\<forall>t. fst (from_dict data t) =
                  Inr (c1\<lparr>modified_date := PStr (clock s (ticks s))\<rparr>))))"
  using assms
  by (auto simp: save_character_str get_character_def update_conv' dom_update
      from_dict_to_dict_fst)

theorem rename_keeps_old_entry_witness:
  "map (\<lambda>p. (fst p, level (snd p)))
     (characters (snd (save_character (sheet ''Arya'' 2 ''2024-01-01T00:00:00'') aria_store))) =
     [(PStr ''Aria'', PInt 1), (PStr ''Arya'', PInt 2)] \<and>
   map (\<lambda>p. (fst p, case snd p of Json (PDict d) \<Rightarrow> map_of d ''level'' | _ \<Rightarrow> None))
     (files (snd (save_character (sheet ''Arya'' 2 ''2024-01-01T00:00:00'') aria_store))) =
     [(''Aria.json'', Some (PInt 1)), (''Arya.json'', Some (PInt 2))]"
proof -
  have ne: "''Aria'' \<noteq> ''Arya''"
    by simp
  have plain: "CHR ''/'' \<notin> set ''Aria''" "CHR ''/'' \<notin> set ''Arya''"
    by simp_all
  have first: "save_character (sheet ''Aria'' 1 ''2024-01-01T00:00:00'') empty_store =
      (Inr (), aria_store)"
    by (simp add: aria_store_def save_character_str sheet_name)
  note rename_keeps_old_entry [OF sheet_name sheet_name ne plain first prod.collapse [symmetric]]
  then show ?thesis
    by (simp add: aria_store_def save_character_str sheet_name empty_store_def filename_def
        sheet_def to_dict_def)
qed

text \<open>
  C7. Two characters of the same name (without path separator) saved one after the
  other: memory has exactly one entry of the name and the directory exactly one file of
  the name. The entry is the second character as the second save stamped it; the file
  holds its eleven fields, item by item, and deserialises to it. (That a key occurs
  once in a dict and a name once in a directory is what the two premises on \<open>s\<close> say.)
\<close>

theorem same_name_one_entry:
  assumes "distinct (map fst (characters s))" and "distinct (map fst (files s))"
    and "name c1 = PStr n" and "name c2 = PStr n" and "CHR ''/'' \<notin> set n"
    and "save_character c1 s = (r1, s1)"
    and "save_character c2 s1 = (r2, s2)"
  shows "r1 = Inr () \<and> r2 = Inr () \<and>
         filter (\<lambda>p. fst p = PStr n) (characters s2) =
           [(PStr n, c2\<lparr>modified_date := PStr (clock s (Suc (ticks s)))\<rparr>)] \<and>
         filter (\<lambda>p. fst p = filename n) (files s2) =
           [(filename n, Json (PDict
              [(''name'', PStr n), (''class'', char_class c2), (''level'', level c2),
               (''strength'', strength c2), (''dexterity'', dexterity c2),
               (''constitution'', constitution c2), (''intelligence'', intelligence c2),
               (''wisdom'', wisdom c2), (''charisma'', charisma c2),
               (''created_date'', created_date c2),
               (''modified_date'', PStr (clock s (Suc (ticks s))))]))] \<and>
         (\<exists>data. map_of (files s2) (filename n) = Some (Json data) \<and>
            (\<forall>t. fst (from_dict data t) =
               Inr (c2\<lparr>modified_date := PStr (clock s (Suc (ticks s)))\<rparr>)))"
proof -
  let ?c1 = "c1\<lparr>modified_date := PStr (clock s (ticks s))\<rparr>"
  let ?c2 = "c2\<lparr>modified_date := PStr (clock s (Suc (ticks s)))\<rparr>"
  from assms(3,5,6) have r1: "r1 = Inr ()"
    and s1: "s1 = s\<lparr>ticks := Suc (ticks s),
        files := AList.update (filename n) (Json (PDict (to_dict ?c1))) (files s),
        characters := AList.update (PStr n) ?c1 (characters s)\<rparr>"
    by (auto simp: save_character_str)
  have d1: "distinct (map fst (characters s1))" "distinct (map fst (files s1))"
    using assms(1,2) by (simp_all add: s1 distinct_update)
  have t1: "clock s1 = clock s" "ticks s1 = Suc (ticks s)"
    by (simp_all add: s1)
  from assms(4,5,7) have r2: "r2 = Inr ()"
    and s2: "s2 = s1\<lparr>ticks := Suc (ticks s1),
        files := AList.update (filename n) (Json (PDict (to_dict ?c2))) (files s1),
        characters := AList.update (PStr n) ?c2 (characters s1)\<rparr>"
    by (auto simp: save_character_str t1)
  have mem: "filter (\<lambda>p. fst p = PStr n) (characters s2) = [(PStr n, ?c2)]"
    using d1(1) by (simp add: s2 filter_key_update)
  have dir: "filter (\<lambda>p. fst p = filename n) (files s2) =
      [(filename n, Json (PDict (to_dict ?c2)))]"
    using d1(2) by (simp add: s2 filter_key_update)
  have items: "to_dict ?c2 =
      [(''name'', PStr n), (''class'', char_class c2), (''level'', level c2),
       (''strength'', strength c2), (''dexterity'', dexterity c2),
       (''constitution'', constitution c2), (''intelligence'', intelligence c2),
       (''wisdom'', wisdom c2), (''charisma'', charisma c2),
       (''created_date'', created_date c2),
       (''modified_date'', PStr (clock s (Suc (ticks s))))]"
    by (simp add: to_dict_stamped assms(4))
  have held: "map_of (files s2) (filename n) = Some (Json (PDict (to_dict ?c2)))"
    by (simp add: s2 update_conv')
  have again: "fst (from_dict (PDict (to_dict ?c2)) t) = Inr ?c2" for t
    by (rule from_dict_to_dict_fst)
  from r1 r2 mem dir [unfolded items] held again show ?thesis
    by blast
qed

theorem same_name_one_entry_witness:
  "characters (snd (save_character (sheet ''Aria'' 6 ''2024-01-01T00:00:00'') aria_store)) =
     [(PStr ''Aria'',
       (sheet ''Aria'' 6 ''2024-01-01T00:00:00'')\<lparr>modified_date := PStr ''2024-01-01T00:00:01''\<rparr>)] \<and>
   files (snd (save_character (sheet ''Aria'' 6 ''2024-01-01T00:00:00'') aria_store)) =
     [(''Aria.json'', Json (PDict
        [(''name'', PStr ''Aria''), (''class'', PStr ''Fighter''), (''level'', PInt 6),
         (''strength'', PInt 16), (''dexterity'', PInt 12), (''constitution'', PInt 14),
         (''intelligence'', PInt 8), (''wisdom'', PInt 10), (''charisma'', PInt 13),
         (''created_date'', PStr ''2024-01-01T00:00:00''),
         (''modified_date'', PStr ''2024-01-01T00:00:01'')]))]"
proof -
  have d: "distinct (map fst (characters empty_store))" "distinct (map fst (files empty_store))"
    by (simp_all add: empty_store_def)
  have plain: "CHR ''/'' \<notin> set ''Aria''"
    by simp
  have first: "save_character (sheet ''Aria'' 1 ''2024-01-01T00:00:00'') empty_store =
      (Inr (), aria_store)"
    by (simp add: aria_store_def save_character_str sheet_name)
  note same_name_one_entry [OF d sheet_name sheet_name plain first prod.collapse [symmetric]]
  then show ?thesis
    by (simp add: aria_store_def save_character_str sheet_name empty_store_def filename_def
        example_clock_def to_dict_def sheet_def)
qed

section \<open>Loading\<close>

lemma from_dict_characters:
  "from_dict data (s\<lparr>characters := cs\<rparr>) =
     (fst (from_dict data s), (snd (from_dict data s))\<lparr>characters := cs\<rparr>)"
  by (cases data) (simp_all add: from_dict_def Character_init_def now_isoformat_def)

lemma from_dict_frame:
  "files (snd (from_dict data s)) = files s"
  "characters (snd (from_dict data s)) = characters s"
  "clock (snd (from_dict data s)) = clock s"
  by (cases data; simp add: from_dict_def Character_init_def now_isoformat_def)+

lemma file_records_characters:
  "file_records fs (s\<lparr>characters := cs\<rparr>) = file_records fs s"
proof (induction fs arbitrary: s cs)
  case Nil
  then show ?case by simp
next
  case (Cons p fs)
  obtain f content where p: "p = (f, content)" by (cases p)
  show ?case
  proof (cases content)
    case NotJson
    with p show ?thesis by simp
  next
    case (Json data)
    obtain r s1 where fd: "from_dict data s = (r, s1)" by (cases "from_dict data s")
    then have fd': "from_dict data (s\<lparr>characters := cs\<rparr>) = (r, s1\<lparr>characters := cs\<rparr>)"
      by (simp add: from_dict_characters)
    show ?thesis
      using p Json fd fd' Cons.IH [where s = s1 and cs = cs]
      by (simp split: sum.split)
  qed
qed

lemma map_add_rev_Cons:
  "m(k \<mapsto> c) ++ map_of (rev rs) = m ++ map_of (rev ((k, c) # rs))"
proof -
  have "map_of (rev ((k, c) # rs)) = [k \<mapsto> c] ++ map_of (rev rs)"
    by (simp only: rev.simps map_of_append map_of.simps) simp
  moreover have "m ++ ([k \<mapsto> c] ++ map_of (rev rs)) = (m ++ [k \<mapsto> c]) ++ map_of (rev rs)"
    by (rule map_add_assoc)
  moreover have "m ++ [k \<mapsto> c] = m(k \<mapsto> c)"
    by simp
  ultimately show ?thesis by simp
qed

text \<open>The loop, started on any mapping: the pairs of the files are laid over it.\<close>

lemma load_files_map_of:
  assumes "load_files fs s = (Inr (), s')"
  shows "map_of (characters s') = map_of (characters s) ++ map_of (rev (file_records fs s))
    \<and> length (file_records fs s) = length fs
    \<and> fst ` set (characters s') = fst ` set (characters s) \<union> fst ` set (file_records fs s)
    \<and> files s' = files s \<and> clock s' = clock s"
  using assms
proof (induction fs arbitrary: s)
  case Nil
  then show ?case by simp
next
  case (Cons p fs)
  obtain f content where p: "p = (f, content)" by (cases p)
  from Cons.prems p obtain data where content: "content = Json data"
    by (cases content) simp_all
  obtain r s1 where fd: "from_dict data s = (r, s1)" by (cases "from_dict data s")
  with Cons.prems p content obtain char where r: "r = Inr char"
    by (cases r) simp_all
  from Cons.prems p content fd r obtain k where k: "dict_key (name char) = Inr k"
    by (cases "dict_key (name char)") simp_all
  let ?s2 = "s1\<lparr>characters := AList.update k char (characters s1)\<rparr>"
  from Cons.prems p content fd r k have rest: "load_files fs ?s2 = (Inr (), s')"
    by simp
  have s1: "characters s1 = characters s" "files s1 = files s" "clock s1 = clock s"
    using from_dict_frame [of data s] fd by simp_all
  have recs: "file_records (p # fs) s = (k, char) # file_records fs s1"
    using p content fd r k by simp
  have recs2: "file_records fs ?s2 = file_records fs s1"
    by (rule file_records_characters)
  have upd: "map_of (characters ?s2) = (map_of (characters s))(k \<mapsto> char)"
    "fst ` set (characters ?s2) = insert k (fst ` set (characters s))"
    "files ?s2 = files s" "clock ?s2 = clock s"
    by (simp_all add: s1 update_conv' dom_update)
  note ih0 = Cons.IH [OF rest]
  have ih1: "map_of (characters s') =
      (map_of (characters s))(k \<mapsto> char) ++ map_of (rev (file_records fs s1))"
    using ih0 [THEN conjunct1] by (simp only: recs2 upd)
  have ih2: "length (file_records fs s1) = length fs"
    using ih0 [THEN conjunct2, THEN conjunct1] by (simp only: recs2)
  have ih3: "fst ` set (characters s') =
      insert k (fst ` set (characters s)) \<union> fst ` set (file_records fs s1)"
    using ih0 [THEN conjunct2, THEN conjunct2, THEN conjunct1] by (simp only: recs2 upd)
  have ih4: "files s' = files s"
    using ih0 [THEN conjunct2, THEN conjunct2, THEN conjunct2, THEN conjunct1]
    by (simp only: upd)
  have ih5: "clock s' = clock s"
    using ih0 [THEN conjunct2, THEN conjunct2, THEN conjunct2, THEN conjunct2]
    by (simp only: upd)
  have m: "(map_of (characters s))(k \<mapsto> char) ++ map_of (rev (file_records fs s1)) =
      map_of (characters s) ++ map_of (rev ((k, char) # file_records fs s1))"
    by (rule map_add_rev_Cons)
  have d: "insert k (fst ` set (characters s)) \<union> fst ` set (file_records fs s1) =
      fst ` set (characters s) \<union> fst ` set ((k, char) # file_records fs s1)"
    by auto
  have l: "length ((k, char) # file_records fs s1) = length (p # fs)"
    using ih2 by simp
  show ?case
    unfolding recs
    by (intro conjI) (simp_all only: ih1 ih3 ih4 ih5 m d l)
qed

lemma load_files_distinct:
  assumes "load_files fs s = (r, s')" and "distinct (map fst (characters s))"
  shows "distinct (map fst (characters s'))"
  using assms
proof (induction fs arbitrary: s)
  case Nil
  then show ?case by simp
next
  case (Cons p fs)
  obtain f content where p: "p = (f, content)" by (cases p)
  show ?case
  proof (cases content)
    case NotJson
    with Cons.prems p show ?thesis by simp
  next
    case (Json data)
    obtain r1 s1 where fd: "from_dict data s = (r1, s1)" by (cases "from_dict data s")
    have s1: "characters s1 = characters s"
      using from_dict_frame(2) [of data s] fd by simp
    show ?thesis
    proof (cases r1)
      case (Inl e)
      with Cons.prems p Json fd s1 show ?thesis by simp
    next
      case (Inr char)
      show ?thesis
      proof (cases "dict_key (name char)")
        case (Inl e)
        with Cons.prems p Json fd Inr s1 show ?thesis by simp
      next
        case k: (Inr k)
        let ?s2 = "s1\<lparr>characters := AList.update k char (characters s1)\<rparr>"
        from Cons.prems(1) p Json fd Inr k have rest: "load_files fs ?s2 = (r, s')"
          by simp
        have "distinct (map fst (characters ?s2))"
          using Cons.prems(2) by (simp add: s1 distinct_update)
        with rest show ?thesis
          by (rule Cons.IH)
      qed
    qed
  qed
qed

text \<open>
  C6. A load that succeeds. It starts from the empty mapping: what was in memory before
  has no influence on the result. Every file that \<open>glob\<close> finds gives a record, keyed by
  the \<open>name\<close> read from its contents (\<open>file_records\<close> does not look at the path); the
  mapping holds, for every key, the record of the last file of that key in the
  enumeration order, and holds each key once.
\<close>

theorem load_all_characters_last_wins:
  assumes "load_all_characters s = (Inr (), s')"
  shows "length (file_records (glob_json (files s)) s) = length (glob_json (files s)) \<and>
         map_of (characters s') = map_of (rev (file_records (glob_json (files s)) s)) \<and>
         fst ` set (characters s') = fst ` set (file_records (glob_json (files s)) s) \<and>
         distinct (map fst (characters s')) \<and>
         (\<forall>cs. load_all_characters (s\<lparr>characters := cs\<rparr>) = (Inr (), s'))"
proof -
  let ?s0 = "s\<lparr>characters := []\<rparr>"
  from assms have run: "load_files (glob_json (files s)) ?s0 = (Inr (), s')"
    by (simp add: load_all_characters_def)
  have recs: "file_records (glob_json (files s)) ?s0 = file_records (glob_json (files s)) s"
    by (rule file_records_characters)
  note facts = load_files_map_of [OF run, unfolded recs]
  have len: "length (file_records (glob_json (files s)) s) = length (glob_json (files s))"
    using facts by blast
  have "map_of (characters s') =
      map_of (characters ?s0) ++ map_of (rev (file_records (glob_json (files s)) s))"
    using facts by blast
  then have look: "map_of (characters s') = map_of (rev (file_records (glob_json (files s)) s))"
    by simp
  have "fst ` set (characters s') =
      fst ` set (characters ?s0) \<union> fst ` set (file_records (glob_json (files s)) s)"
    using facts by blast
  then have keys: "fst ` set (characters s') = fst ` set (file_records (glob_json (files s)) s)"
    by simp
  have once: "distinct (map fst (characters s'))"
    using load_files_distinct [OF run] by simp
  have cleared: "load_all_characters (s\<lparr>characters := cs\<rparr>) = (Inr (), s')" for cs
    using run by (simp add: load_all_characters_def)
  from len look keys once cleared show ?thesis
    by blast
qed

theorem load_all_characters_last_wins_witness:
  "fst (load_all_characters twin_store) = Inr () \<and>
   map (\<lambda>p. (fst p, level (snd p))) (characters (snd (load_all_characters twin_store))) =
     [(PStr ''Ann'', PInt 2)] \<and>
   map (\<lambda>p. (fst p, level (snd p))) (file_records (glob_json (files twin_store)) twin_store) =
     [(PStr ''Ann'', PInt 1), (PStr ''Ann'', PInt 2)]"
proof -
  have glob: "glob_json (files twin_store) =
      [(''x.json'', Json (PDict [(''name'', PStr ''Ann''), (''level'', PInt 1)])),
       (''y.json'', Json (PDict [(''name'', PStr ''Ann''), (''level'', PInt 2)]))]"
    by (simp add: twin_store_def empty_store_def glob_json_def is_json_file_def)
  have ok: "fst (load_all_characters twin_store) = Inr ()"
    by (simp add: load_all_characters_def glob from_dict_dict dict_get_def)
  then have run: "load_all_characters twin_store = (Inr (), snd (load_all_characters twin_store))"
    by (metis prod.collapse)
  note load_all_characters_last_wins [OF run]
  then show ?thesis
    using ok by (simp add: load_all_characters_def glob from_dict_dict dict_get_def)
qed

section \<open>Listing\<close>

lemma those_name_key:
  "map name cs = map PStr ns \<Longrightarrow>
     those (map (name_key f) cs) = Some (zip (map f ns) cs)"
proof (induction cs arbitrary: ns)
  case Nil
  then show ?case by simp
next
  case (Cons c cs)
  then obtain n ns' where ns: "ns = n # ns'" and c: "name c = PStr n"
    and rest: "map name cs = map PStr ns'"
    by (cases ns) auto
  from Cons.IH [OF rest] c show ?case
    by (simp add: ns name_key_def)
qed

lemma lower_examples:
  "lower ''ABCDEFGHIJKLMNOPQRSTUVWXYZ'' = ''abcdefghijklmnopqrstuvwxyz''"
  "lower ''abcxyz 0189 _-./@[`{'' = ''abcxyz 0189 _-./@[`{''"
  "lower ''Zed'' = ''zed''" "lower ''anna'' = ''anna''" "lower ''Bob'' = ''bob''"
  "lower ''zed'' = ''zed''" "lower ''Anna'' = ''anna''" "lower ''bob'' = ''bob''"
  by (simp_all add: lower_def lower_char_def)

lemma ascii_examples:
  "ascii ''Zed''" "ascii ''anna''" "ascii ''Bob''" "ascii ''zed''" "ascii ''Anna''" "ascii ''bob''"
  by (simp_all add: ascii_def)

text \<open>
  C5. \<open>str_lower\<close> is Python's \<open>str.lower\<close>, of which the premise says what it does on
  ASCII text. In a store whose names are strings, \<open>list_characters\<close> returns the records
  of the mapping, all of them and each as often as it is there, in ascending order of
  their lower-cased names; when the names are ASCII text this is the order of the
  names with \<open>A\<close> to \<open>Z\<close> replaced by \<open>a\<close> to \<open>z\<close>. The function takes the state and
  returns a list: it writes nothing. Characters named zed, Anna and bob, saved in this
  order into an empty mapping, come back as Anna, bob, zed; and Zed, anna, Bob, whose
  order byte by byte is Bob, Zed, anna, come back as anna, Bob, Zed.
\<close>

theorem list_characters_sorted:
  assumes names: "map (\<lambda>p. name (snd p)) (characters s) = map PStr ns"
    and py: "\<forall>n. ascii n \<longrightarrow> str_lower n = lower n"
  shows "(\<exists>cs ks. list_characters str_lower s = Inr cs \<and>
           mset cs = mset (map snd (characters s)) \<and>
           map name cs = map PStr ks \<and> sorted (map str_lower ks) \<and>
           (list_all ascii ns \<longrightarrow> sorted (map lower ks))) \<and>
         lower ''ABCDEFGHIJKLMNOPQRSTUVWXYZ'' = ''abcdefghijklmnopqrstuvwxyz'' \<and>
         lower ''abcxyz 0189 _-./@[`{'' = ''abcxyz 0189 _-./@[`{'' \<and>
         (\<forall>c1 c2 c3 t. characters t = [] \<longrightarrow> name c1 = PStr ''zed'' \<longrightarrow>
            name c2 = PStr ''Anna'' \<longrightarrow> name c3 = PStr ''bob'' \<longrightarrow>
            (\<exists>cs. list_characters str_lower
                (snd (save_character c3 (snd (save_character c2 (snd (save_character c1 t)))))) =
                Inr cs \<and>
              map name cs = [PStr ''Anna'', PStr ''bob'', PStr ''zed''])) \<and>
         (\<forall>c1 c2 c3 t. characters t = [] \<longrightarrow> name c1 = PStr ''Zed'' \<longrightarrow>
            name c2 = PStr ''anna'' \<longrightarrow> name c3 = PStr ''Bob'' \<longrightarrow>
            (\<exists>cs. list_characters str_lower
                (snd (save_character c3 (snd (save_character c2 (snd (save_character c1 t)))))) =
                Inr cs \<and>
              map name cs = [PStr ''anna'', PStr ''Bob'', PStr ''Zed'']))"
proof -
  let ?vs = "map snd (characters s)"
  let ?keyed = "zip (map str_lower ns) ?vs"
  let ?sk = "sort_key fst ?keyed"
  define strname where "strname c = (case name c of PStr n \<Rightarrow> n | _ \<Rightarrow> [])"
    for c :: Character
  from names have names': "map name ?vs = map PStr ns"
    by (simp add: comp_def)
  then have len: "length ns = length ?vs"
    by (metis length_map)
  from names' have keyed: "those (map (name_key str_lower) ?vs) = Some ?keyed"
    by (rule those_name_key)
  then have res: "list_characters str_lower s = Inr (map snd ?sk)"
    by (simp add: list_characters_def)
  have perm: "mset (map snd ?sk) = mset ?vs"
  proof -
    have "mset (map snd ?sk) = image_mset snd (mset ?sk)"
      by simp
    also have "\<dots> = image_mset snd (mset ?keyed)"
      by simp
    also have "\<dots> = mset (map snd ?keyed)"
      by simp
    also have "map snd ?keyed = ?vs"
      using len by (simp add: map_snd_zip)
    finally show ?thesis .
  qed
  have pair: "name c = PStr (strname c) \<and> k = str_lower (strname c) \<and> strname c \<in> set ns"
    if "(k, c) \<in> set ?keyed" for k c
  proof -
    from that len obtain i where i: "i < length ?vs" and k: "k = map str_lower ns ! i"
      and c: "c = ?vs ! i"
      by (auto simp: in_set_zip)
    from names' i len have "name c = PStr (ns ! i)"
      by (metis c length_map nth_map)
    with k i len show ?thesis
      by (simp add: strname_def)
  qed
  have set_sk: "set ?sk = set ?keyed"
    by simp
  let ?ks = "map strname (map snd ?sk)"
  have nm: "map name (map snd ?sk) = map PStr ?ks"
    using pair set_sk by (auto simp: comp_def)
  have keys: "map str_lower ?ks = map fst ?sk"
    using pair set_sk by (auto simp: comp_def)
  have srt: "sorted (map str_lower ?ks)"
    unfolding keys by (rule sorted_sort_key)
  have sub: "set ?ks \<subseteq> set ns"
    using pair set_sk by auto
  have folded: "sorted (map lower ?ks)" if "list_all ascii ns"
  proof -
    have "str_lower k = lower k" if "k \<in> set ?ks" for k
    proof -
      from that sub have "k \<in> set ns" ..
      with \<open>list_all ascii ns\<close> have "ascii k"
        by (simp add: list_all_iff)
      with py show ?thesis
        by simp
    qed
    then have eq: "map str_lower ?ks = map lower ?ks"
      by (intro map_cong) simp_all
    from srt show ?thesis
      unfolding eq .
  qed
  have general: "\<exists>cs ks. list_characters str_lower s = Inr cs \<and> mset cs = mset ?vs \<and>
      map name cs = map PStr ks \<and> sorted (map str_lower ks) \<and>
      (list_all ascii ns \<longrightarrow> sorted (map lower ks))"
    using res perm nm srt folded by blast
  have low: "str_lower ''zed'' = ''zed''" "str_lower ''Anna'' = ''anna''"
    "str_lower ''bob'' = ''bob''" "str_lower ''Zed'' = ''zed''" "str_lower ''anna'' = ''anna''"
    "str_lower ''Bob'' = ''bob''"
    using py by (simp_all add: ascii_examples lower_examples)
  have example1: "\<exists>cs. list_characters str_lower
        (snd (save_character c3 (snd (save_character c2 (snd (save_character c1 t)))))) = Inr cs \<and>
      map name cs = [PStr ''Anna'', PStr ''bob'', PStr ''zed'']"
    if "characters t = []" "name c1 = PStr ''zed''" "name c2 = PStr ''Anna''"
      "name c3 = PStr ''bob''" for c1 c2 c3 t
    using that by (simp add: save_character_str list_characters_def name_key_def low)
  have example2: "\<exists>cs. list_characters str_lower
        (snd (save_character c3 (snd (save_character c2 (snd (save_character c1 t)))))) = Inr cs \<and>
      map name cs = [PStr ''anna'', PStr ''Bob'', PStr ''Zed'']"
    if "characters t = []" "name c1 = PStr ''Zed''" "name c2 = PStr ''anna''"
      "name c3 = PStr ''Bob''" for c1 c2 c3 t
    using that by (simp add: save_character_str list_characters_def name_key_def low)
  from general lower_examples(1,2) example1 example2 show ?thesis
    by blast
qed

theorem list_characters_sorted_witness:
  "map_sum id (map (\<lambda>c. (name c, level c)))
     (list_characters lower (snd (save_character (sheet ''Bob'' 3 ''2024-01-01T00:00:00'')
        (snd (save_character (sheet ''anna'' 2 ''2024-01-01T00:00:00'')
          (snd (save_character (sheet ''Zed'' 1 ''2024-01-01T00:00:00'') empty_store))))))) =
     Inr [(PStr ''anna'', PInt 2), (PStr ''Bob'', PInt 3), (PStr ''Zed'', PInt 1)] \<and>
   sort [''Zed'', ''anna'', ''Bob''] = [''Bob'', ''Zed'', ''anna'']"
proof -
  let ?s = "snd (save_character (sheet ''Bob'' 3 ''2024-01-01T00:00:00'')
        (snd (save_character (sheet ''anna'' 2 ''2024-01-01T00:00:00'')
          (snd (save_character (sheet ''Zed'' 1 ''2024-01-01T00:00:00'') empty_store)))))"
  have names: "map (\<lambda>p. name (snd p)) (characters ?s) = map PStr [''Zed'', ''anna'', ''Bob'']"
    by (simp add: save_character_str sheet_name empty_store_def)
  have py: "\<forall>n. ascii n \<longrightarrow> lower n = lower n"
    by simp
  note list_characters_sorted [OF names py]
  then show ?thesis
    by (simp add: save_character_str sheet_name empty_store_def list_characters_def name_key_def
        lower_examples sheet_def)
qed

section \<open>The directory the program writes\<close>

lemma is_json_file_filename: "is_json_file (filename n) \<longleftrightarrow> CHR ''/'' \<notin> set n"
  by (auto simp: is_json_file_def filename_def)

lemma glob_json_update:
  "glob_json (AList.update k v fs) =
     (if is_json_file k then AList.update k v (glob_json fs) else glob_json fs)"
  by (induction fs) (auto simp: glob_json_def)

lemma glob_json_delete: "glob_json (AList.delete k fs) = AList.delete k (glob_json fs)"
  by (induction fs) (auto simp: glob_json_def)

lemma list_all_update:
  "list_all P fs \<Longrightarrow> P (k, v) \<Longrightarrow> list_all P (AList.update k v fs)"
  by (induction fs) auto

lemma list_all_delete: "list_all P fs \<Longrightarrow> list_all P (AList.delete k fs)"
  by (induction fs) auto

lemma record_file_to_dict: "name c = PStr n \<Longrightarrow> record_file (filename n, Json (PDict (to_dict c)))"
  by (simp add: to_dict_def)

lemma record_file_cases:
  assumes "record_file (f, content)"
  obtains d n where "content = Json (PDict d)" and "map_of d ''name'' = Some (PStr n)"
    and "f = filename n"
proof (cases content)
  case NotJson
  with assms show ?thesis by simp
next
  case (Json data)
  with assms obtain d where d: "data = PDict d"
    by (cases data) simp_all
  with assms Json obtain v where v: "map_of d ''name'' = Some v"
    by (cases "map_of d ''name''") simp_all
  with assms Json d obtain n where "v = PStr n"
    by (cases v) simp_all
  with assms Json d v that show ?thesis
    by simp
qed

text \<open>
  Saving under a name without path separator and deleting keep the directory
  consistent.
\<close>

lemma save_character_consistent:
  assumes "consistent_dir (files s)" and n: "name c = PStr n" and plain: "CHR ''/'' \<notin> set n"
  shows "consistent_dir (files (snd (save_character c s)))"
proof -
  let ?c = "c\<lparr>modified_date := PStr (clock s (ticks s))\<rparr>"
  have "record_file (filename n, Json (PDict (to_dict ?c)))"
    by (rule record_file_to_dict) (simp add: n)
  with assms(1) show ?thesis
    by (simp add: save_character_str [OF n plain] consistent_dir_def distinct_update
        glob_json_update list_all_update)
qed

lemma save_character_not_str:
  assumes "\<forall>n. name c \<noteq> PStr n"
  shows "save_character c s = (Inl AttributeError, s\<lparr>ticks := Suc (ticks s)\<rparr>)"
  using assms
  by (cases "name c") (simp_all add: save_character_def now_isoformat_def Let_def)

lemma delete_character_consistent:
  assumes "consistent_dir (files s)"
  shows "consistent_dir (files (snd (delete_character nm s)))"
proof (cases nm)
  case (PStr n)
  with assms show ?thesis
    by (simp add: delete_character_str consistent_dir_def distinct_delete glob_json_delete
        list_all_delete)
qed (use assms in \<open>simp_all add: delete_character_def\<close>)

lemma consistent_dir_empty: "consistent_dir []"
  by (simp add: consistent_dir_def glob_json_def)

section \<open>Loading a consistent directory\<close>

lemma from_dict_named:
  assumes "map_of d ''name'' = Some (PStr n)"
  shows "\<exists>c. from_dict (PDict d) s = (Inr c, s\<lparr>ticks := ticks s + 4\<rparr>) \<and> name c = PStr n"
  using assms by (simp add: from_dict_dict dict_get_def)

lemma load_files_total:
  "list_all record_file fs \<Longrightarrow> \<exists>s'. load_files fs s = (Inr (), s')"
proof (induction fs arbitrary: s)
  case Nil
  then show ?case by simp
next
  case (Cons p fs)
  obtain f content where p: "p = (f, content)" by (cases p)
  from Cons.prems p have "record_file (f, content)" and rest: "list_all record_file fs"
    by simp_all
  then obtain d n where content: "content = Json (PDict d)"
    and nm: "map_of d ''name'' = Some (PStr n)"
    by (auto elim: record_file_cases)
  from from_dict_named [OF nm] obtain c
    where c: "from_dict (PDict d) s = (Inr c, s\<lparr>ticks := ticks s + 4\<rparr>)" "name c = PStr n"
    by blast
  from Cons.IH [OF rest] c p content show ?case
    by simp
qed

lemma file_records_sound:
  assumes "list_all record_file fs" and "(k, c) \<in> set (file_records fs s)"
  shows "\<exists>d n s0. (filename n, Json (PDict d)) \<in> set fs \<and> map_of d ''name'' = Some (PStr n) \<and>
           k = PStr n \<and> fst (from_dict (PDict d) s0) = Inr c"
  using assms
proof (induction fs arbitrary: s)
  case Nil
  then show ?case by simp
next
  case (Cons p fs)
  obtain f content where p: "p = (f, content)" by (cases p)
  from Cons.prems(1) p have "record_file (f, content)" and rest: "list_all record_file fs"
    by simp_all
  then obtain d n where content: "content = Json (PDict d)"
    and nm: "map_of d ''name'' = Some (PStr n)" and f: "f = filename n"
    by (auto elim: record_file_cases)
  from from_dict_named [OF nm] obtain c0
    where c0: "from_dict (PDict d) s = (Inr c0, s\<lparr>ticks := ticks s + 4\<rparr>)" "name c0 = PStr n"
    by blast
  let ?s1 = "s\<lparr>ticks := ticks s + 4\<rparr>"
  have recs: "file_records (p # fs) s = (PStr n, c0) # file_records fs ?s1"
    using p content c0 by simp
  from Cons.prems(2) recs consider "k = PStr n" "c = c0" | "(k, c) \<in> set (file_records fs ?s1)"
    by auto
  then show ?case
  proof cases
    case 1
    have "fst (from_dict (PDict d) s) = Inr c"
      using c0 1 by simp
    moreover have "(filename n, Json (PDict d)) \<in> set (p # fs)"
      using p content f by simp
    ultimately show ?thesis
      using nm 1 by blast
  next
    case 2
    from Cons.IH [OF rest 2] show ?thesis
      by auto
  qed
qed

lemma file_records_complete:
  assumes "list_all record_file fs" and "(filename n, Json (PDict d)) \<in> set fs"
    and "map_of d ''name'' = Some (PStr n)"
  shows "PStr n \<in> fst ` set (file_records fs s)"
  using assms
proof (induction fs arbitrary: s)
  case Nil
  then show ?case by simp
next
  case (Cons p fs)
  obtain f content where p: "p = (f, content)" by (cases p)
  from Cons.prems(1) p have "record_file (f, content)" and rest: "list_all record_file fs"
    by simp_all
  then obtain d' n' where content: "content = Json (PDict d')"
    and nm: "map_of d' ''name'' = Some (PStr n')"
    by (auto elim: record_file_cases)
  from from_dict_named [OF nm] obtain c0
    where c0: "from_dict (PDict d') s = (Inr c0, s\<lparr>ticks := ticks s + 4\<rparr>)" "name c0 = PStr n'"
    by blast
  let ?s1 = "s\<lparr>ticks := ticks s + 4\<rparr>"
  have recs: "file_records (p # fs) s = (PStr n', c0) # file_records fs ?s1"
    using p content c0 by simp
  show ?case
  proof (cases "(filename n, Json (PDict d)) = p")
    case True
    with p content have "d' = d" by simp
    with nm Cons.prems(3) have "n' = n" by simp
    with recs show ?thesis by simp
  next
    case False
    with Cons.prems(2) have "(filename n, Json (PDict d)) \<in> set fs" by simp
    from Cons.IH [OF rest this Cons.prems(3)] recs show ?thesis
      by simp
  qed
qed

text \<open>
  What a load of a consistent directory gives for a string name: the record of the file
  of that name, when the file holds that name, and nothing otherwise.
\<close>

lemma reload_succeeds:
  assumes "consistent_dir (files s)"
  shows "\<exists>s'. load_all_characters s = (Inr (), s')"
  using assms load_files_total [of "glob_json (files s)" "s\<lparr>characters := []\<rparr>"]
  by (simp add: load_all_characters_def consistent_dir_def)

lemma reload_lookup:
  assumes dir: "consistent_dir (files s)"
    and run: "load_all_characters s = (Inr (), s')"
    and held: "map_of (files s) (filename n) = Some (Json (PDict d))"
  shows "map_of d ''name'' = Some (PStr n) \<Longrightarrow> is_json_file (filename n) \<Longrightarrow>
           \<exists>s0. map_of (characters s') (PStr n) = Some (projr (fst (from_dict (PDict d) s0)))"
    and "map_of d ''name'' \<noteq> Some (PStr n) \<Longrightarrow> map_of (characters s') (PStr n) = None"
proof -
  let ?g = "glob_json (files s)"
  let ?s0 = "s\<lparr>characters := []\<rparr>"
  let ?recs = "file_records ?g ?s0"
  from dir have dist: "distinct (map fst (files s))" and all: "list_all record_file ?g"
    by (simp_all add: consistent_dir_def)
  from run have "load_files ?g ?s0 = (Inr (), s')"
    by (simp add: load_all_characters_def)
  from load_files_map_of [OF this] have look: "map_of (characters s') = map_of (rev ?recs)"
    by simp
  have unique: "d' = d" if "(filename n, Json (PDict d')) \<in> set ?g" for d'
  proof -
    from that have "(filename n, Json (PDict d')) \<in> set (files s)"
      by (simp add: glob_json_def)
    with dist have "map_of (files s) (filename n) = Some (Json (PDict d'))"
      by (rule map_of_is_SomeI)
    with held show ?thesis by simp
  qed
  have found: "\<exists>s0. c = projr (fst (from_dict (PDict d) s0)) \<and> map_of d ''name'' = Some (PStr n)"
    if "map_of (rev ?recs) (PStr n) = Some c" for c
  proof -
    from that have "(PStr n, c) \<in> set ?recs"
      using map_of_SomeD by fastforce
    from file_records_sound [OF all this] obtain d' n' s0
      where sound: "(filename n', Json (PDict d')) \<in> set ?g"
        "map_of d' ''name'' = Some (PStr n')" "PStr n = PStr n'"
        "fst (from_dict (PDict d') s0) = Inr c"
      by blast
    from sound(1,3) unique [of d'] have d': "d' = d"
      by simp
    from sound(4) have "c = projr (fst (from_dict (PDict d) s0))"
      by (simp add: d')
    with sound(2,3) d' show ?thesis
      by auto
  qed
  {
    assume nm: "map_of d ''name'' = Some (PStr n)" and json: "is_json_file (filename n)"
    from held have "(filename n, Json (PDict d)) \<in> set (files s)"
      by (rule map_of_SomeD)
    with json have "(filename n, Json (PDict d)) \<in> set ?g"
      by (simp add: glob_json_def)
    from file_records_complete [OF all this nm] have "PStr n \<in> fst ` set (rev ?recs)"
      by simp
    then obtain c where c: "map_of (rev ?recs) (PStr n) = Some c"
      by (meson domD domI dom_map_of_conv_image_fst [THEN equalityD2, THEN subsetD])
    from found [OF c] c look
    show "\<exists>s0. map_of (characters s') (PStr n) = Some (projr (fst (from_dict (PDict d) s0)))"
      by auto
  next
    assume "map_of d ''name'' \<noteq> Some (PStr n)"
    with found look show "map_of (characters s') (PStr n) = None"
      by (cases "map_of (rev ?recs) (PStr n)") auto
  }
qed

section \<open>Saving, then loading again\<close>


text \<open>
  A save into a consistent directory followed by a load: the load succeeds and gives
  the saved record for the name, provided the file of the name is one that \<open>glob\<close>
  finds (the name has no path separator).
\<close>

lemma save_then_load:
  assumes n: "name c = PStr n" and dir: "consistent_dir (files s)"
    and plain: "CHR ''/'' \<notin> set n"
    and load: "load_all_characters (snd (save_character c s)) = (r, s')"
  shows "r = Inr ()"
    and "map_of (characters s') (PStr n) = Some (c\<lparr>modified_date := PStr (clock s (ticks s))\<rparr>)"
    and "\<And>m. m \<noteq> n \<Longrightarrow> filename m = filename n \<Longrightarrow> map_of (characters s') (PStr m) = None"
proof -
  let ?c = "c\<lparr>modified_date := PStr (clock s (ticks s))\<rparr>"
  let ?s1 = "snd (save_character c s)"
  have dir1: "consistent_dir (files ?s1)"
    using dir n plain by (rule save_character_consistent)
  from reload_succeeds [OF dir1] load show r: "r = Inr ()"
    by auto
  with load have run: "load_all_characters ?s1 = (Inr (), s')"
    by simp
  have held: "map_of (files ?s1) (filename n) = Some (Json (PDict (to_dict ?c)))"
    by (simp add: save_character_str [OF n plain] update_conv')
  have nm: "map_of (to_dict ?c) ''name'' = Some (PStr n)"
    using n by (simp add: to_dict_def)
  have json: "is_json_file (filename n)"
    using plain by (simp add: is_json_file_filename)
  from reload_lookup(1) [OF dir1 run held nm json]
  show "map_of (characters s') (PStr n) = Some ?c"
    by (simp add: from_dict_to_dict)
  fix m
  assume m: "m \<noteq> n" "filename m = filename n"
  from held m(2) have held': "map_of (files ?s1) (filename m) = Some (Json (PDict (to_dict ?c)))"
    by simp
  from nm m(1) have "map_of (to_dict ?c) ''name'' \<noteq> Some (PStr m)"
    by simp
  with reload_lookup(2) [OF dir1 run held'] show "map_of (characters s') (PStr m) = None"
    by simp
qed




text \<open>
  C10. The file name of a name is not injective: \<open>a b\<close> and \<open>a_b\<close> are different names
  of one file. For two different names \<open>a\<close> and \<open>b\<close> of one file, saved in this order:
  memory has both entries, the directory has a single file for the two, which holds the
  second record; after a load of the directory the second name has its record and the
  first has none. The directory is one the program has written.
\<close>

theorem filename_collision:
  assumes "name ca = PStr a" and "name cb = PStr b"
    and "a \<noteq> b" and "filename a = filename b"
    and "consistent_dir (files s)" and "CHR ''/'' \<notin> set b"
    and "save_character ca s = (r1, s1)"
    and "save_character cb s1 = (r2, s2)"
    and "load_all_characters s2 = (r3, s3)"
  shows "filename ''a b'' = filename ''a_b'' \<and> \<not> inj filename \<and>
         r1 = Inr () \<and> r2 = Inr () \<and>
         get_character (PStr a) s2 = Inr (Some (ca\<lparr>modified_date := PStr (clock s (ticks s))\<rparr>)) \<and>
         get_character (PStr b) s2 =
           Inr (Some (cb\<lparr>modified_date := PStr (clock s (Suc (ticks s)))\<rparr>)) \<and>
         filter (\<lambda>p. fst p = filename a \<or> fst p = filename b) (files s2) =
           [(filename b, Json (PDict (to_dict (cb\<lparr>modified_date := PStr (clock s (Suc (ticks s)))\<rparr>))))] \<and>
         r3 = Inr () \<and>
         get_character (PStr a) s3 = Inr None \<and>
         get_character (PStr b) s3 =
           Inr (Some (cb\<lparr>modified_date := PStr (clock s (Suc (ticks s)))\<rparr>))"
proof -
  let ?ca = "ca\<lparr>modified_date := PStr (clock s (ticks s))\<rparr>"
  let ?cb = "cb\<lparr>modified_date := PStr (clock s (Suc (ticks s)))\<rparr>"
  have same: "filename ''a b'' = filename ''a_b''"
    by (simp add: filename_def)
  then have ninj: "\<not> inj filename"
    by (auto simp: inj_def)
  from assms(4) have "CHR ''/'' \<in> set (filename a) \<longleftrightarrow> CHR ''/'' \<in> set (filename b)"
    by simp
  then have "CHR ''/'' \<in> set a \<longleftrightarrow> CHR ''/'' \<in> set b"
    by (simp only: filename_separator)
  with assms(6) have plain: "CHR ''/'' \<notin> set a"
    by simp
  from assms(1,7) plain have r1: "r1 = Inr ()" and s1: "s1 = snd (save_character ca s)"
    by (auto simp: save_character_str)
  from assms(2,6,8) have r2: "r2 = Inr ()" and s2: "s2 = snd (save_character cb s1)"
    by (auto simp: save_character_str)
  have dir1: "consistent_dir (files s1)"
    unfolding s1 using assms(5,1) plain by (rule save_character_consistent)
  have tick: "clock s1 = clock s" "ticks s1 = Suc (ticks s)"
    by (simp_all add: s1 save_character_str [OF assms(1) plain])
  have mem: "get_character (PStr a) s2 = Inr (Some ?ca)" "get_character (PStr b) s2 = Inr (Some ?cb)"
    using assms(3)
    by (simp_all add: s2 s1 save_character_str [OF assms(1) plain]
        save_character_str [OF assms(2,6)] get_character_def update_conv')
  have dist: "distinct (map fst (files s1))"
    using dir1 by (simp add: consistent_dir_def)
  have one: "filter (\<lambda>p. fst p = filename a \<or> fst p = filename b) (files s2) =
      [(filename b, Json (PDict (to_dict ?cb)))]"
    using dist
    by (simp add: assms(4) s2 save_character_str [OF assms(2,6)] tick filter_key_update)
  from assms(9) have load: "load_all_characters (snd (save_character cb s1)) = (r3, s3)"
    by (simp add: s2)
  note reload = save_then_load [OF assms(2) dir1 assms(6) load]
  have r3: "r3 = Inr ()"
    by (rule reload(1))
  have b: "get_character (PStr b) s3 = Inr (Some ?cb)"
    using reload(2) by (simp add: get_character_def tick)
  have a: "get_character (PStr a) s3 = Inr None"
    using reload(3) [OF assms(3) assms(4)] by (simp add: get_character_def)
  from same ninj r1 r2 mem one r3 a b show ?thesis
    by simp
qed

theorem filename_collision_witness:
  "map (\<lambda>p. (fst p, level (snd p)))
     (characters (snd (save_character (sheet ''a_b'' 2 ''2024-01-01T00:00:00'')
        (snd (save_character (sheet ''a b'' 1 ''2024-01-01T00:00:00'') empty_store))))) =
     [(PStr ''a b'', PInt 1), (PStr ''a_b'', PInt 2)] \<and>
   map fst (files (snd (save_character (sheet ''a_b'' 2 ''2024-01-01T00:00:00'')
        (snd (save_character (sheet ''a b'' 1 ''2024-01-01T00:00:00'') empty_store))))) =
     [''a_b.json''] \<and>
   map (\<lambda>p. (fst p, level (snd p)))
     (characters (snd (load_all_characters
        (snd (save_character (sheet ''a_b'' 2 ''2024-01-01T00:00:00'')
          (snd (save_character (sheet ''a b'' 1 ''2024-01-01T00:00:00'') empty_store))))))) =
     [(PStr ''a_b'', PInt 2)]"
proof -
  have ne: "''a b'' \<noteq> ''a_b''"
    by simp
  have same: "filename ''a b'' = filename ''a_b''"
    by (simp add: filename_def)
  have dir: "consistent_dir (files empty_store)"
    by (simp add: empty_store_def consistent_dir_empty)
  have plain: "CHR ''/'' \<notin> set ''a_b''"
    by simp
  note filename_collision [OF sheet_name sheet_name ne same dir plain prod.collapse [symmetric]
      prod.collapse [symmetric] prod.collapse [symmetric]]
  then show ?thesis
    by (simp add: save_character_str sheet_name empty_store_def load_all_characters_def
        glob_json_def is_json_file_def filename_def from_dict_to_dict)
      (simp add: sheet_def)
qed

section \<open>Further properties of the store\<close>

text \<open>
  The directory stays consistent: after a save under a name without path separator or
  a delete, as before it, no name occurs twice and every file that \<open>glob\<close> finds is a
  JSON object whose \<open>name\<close> is a string with that file name. The empty directory is
  consistent.
\<close>

theorem directory_stays_consistent:
  assumes "consistent_dir (files s)" and "name c = PStr n" and "CHR ''/'' \<notin> set n"
  shows "consistent_dir (files (snd (save_character c s))) \<and>
         consistent_dir (files (snd (delete_character nm s))) \<and> consistent_dir []"
  using assms
  by (simp add: save_character_consistent delete_character_consistent consistent_dir_empty)

theorem directory_stays_consistent_witness:
  "consistent_dir (files aria_store) \<and>
   consistent_dir (files (snd (delete_character (PStr ''Aria'') aria_store)))"
proof -
  have "consistent_dir (files empty_store)"
    by (simp add: empty_store_def consistent_dir_empty)
  note first = directory_stays_consistent [OF this sheet_name, of "''Aria''" 1
      "''2024-01-01T00:00:00''"]
  then have "consistent_dir (files aria_store)"
    by (simp add: aria_store_def)
  from this directory_stays_consistent [OF this sheet_name, of "''Aria''"] show ?thesis
    by simp
qed

text \<open>
  A save of a character whose name is not a string: the clock has been read, then
  \<open>name.replace\<close> raises \<open>AttributeError\<close>; no file is written and no entry assigned.
\<close>

theorem save_character_not_a_string:
  assumes "\<forall>n. name c \<noteq> PStr n"
  shows "save_character c s = (Inl AttributeError, s\<lparr>ticks := Suc (ticks s)\<rparr>)"
  using assms by (rule save_character_not_str)

theorem save_character_not_a_string_witness:
  "save_character ((sheet ''x'' 1 ''2024-01-01T00:00:00'')\<lparr>name := PInt 5\<rparr>) empty_store =
     (Inl AttributeError, empty_store\<lparr>ticks := 1\<rparr>)"
proof -
  have "\<forall>n. name ((sheet ''x'' 1 ''2024-01-01T00:00:00'')\<lparr>name := PInt 5\<rparr>) \<noteq> PStr n"
    by simp
  from save_character_not_a_string [OF this, of empty_store] show ?thesis
    by (simp add: empty_store_def)
qed

text \<open>
  A file that \<open>glob\<close> finds and \<open>json.load\<close> does not accept is fatal to the load:
  \<open>load_all_characters\<close> raises, whatever the other files are.
\<close>

lemma load_files_not_json:
  "(f, NotJson) \<in> set fs \<Longrightarrow> \<exists>e s'. load_files fs s = (Inl e, s')"
proof (induction fs arbitrary: s)
  case Nil
  then show ?case by simp
next
  case (Cons p fs)
  obtain g content where p: "p = (g, content)" by (cases p)
  show ?case
  proof (cases content)
    case NotJson
    with p show ?thesis by simp
  next
    case (Json data)
    with Cons.prems p have "(f, NotJson) \<in> set fs" by auto
    note ih = Cons.IH [OF this]
    obtain r s1 where fd: "from_dict data s = (r, s1)" by (cases "from_dict data s")
    show ?thesis
    proof (cases r)
      case (Inl e)
      with p Json fd show ?thesis by simp
    next
      case (Inr char)
      show ?thesis
      proof (cases "dict_key (name char)")
        case (Inl e)
        with p Json fd Inr show ?thesis by simp
      next
        case k: (Inr k)
        from ih [of "s1\<lparr>characters := AList.update k char (characters s1)\<rparr>"]
        show ?thesis
          using p Json fd Inr k by simp
      qed
    qed
  qed
qed

theorem load_all_characters_malformed:
  assumes "(f, NotJson) \<in> set (files s)" and "is_json_file f"
  shows "\<exists>e s'. load_all_characters s = (Inl e, s')"
proof -
  from assms have "(f, NotJson) \<in> set (glob_json (files s))"
    by (simp add: glob_json_def)
  from load_files_not_json [OF this] show ?thesis
    by (simp add: load_all_characters_def)
qed

theorem load_all_characters_malformed_witness:
  "fst (load_all_characters (aria_store\<lparr>files := files aria_store @ [(''bad.json'', NotJson)]\<rparr>)) =
     Inl JSONDecodeError"
proof -
  let ?s = "aria_store\<lparr>files := files aria_store @ [(''bad.json'', NotJson)]\<rparr>"
  have "(''bad.json'', NotJson) \<in> set (files ?s)" "is_json_file ''bad.json''"
    by (simp_all add: is_json_file_def)
  note load_all_characters_malformed [OF this]
  then show ?thesis
    by (simp add: aria_store_def save_character_str sheet_name empty_store_def
        load_all_characters_def glob_json_def is_json_file_def filename_def from_dict_to_dict)
qed

lemma those_map_Some: "those xs = Some ys \<Longrightarrow> xs = map Some ys"
proof (induction xs arbitrary: ys)
  case Nil
  then show ?case by simp
next
  case (Cons x xs)
  then show ?case
    by (cases x; cases "those xs") auto
qed

lemma name_key_snd: "map (name_key f) vs = map Some keyed \<Longrightarrow> map snd keyed = vs"
proof (induction vs arbitrary: keyed)
  case Nil
  then show ?case by simp
next
  case (Cons v vs)
  then obtain p ps where keyed: "keyed = p # ps" and p: "name_key f v = Some p"
    and rest: "map (name_key f) vs = map Some ps"
    by (cases keyed) auto
  from p have "snd p = v"
    by (auto simp: name_key_def split: pyval.splits)
  with Cons.IH [OF rest] keyed show ?case
    by simp
qed

text \<open>
  The sort of \<open>list_characters\<close> is stable: the records whose names have one lower-case
  form (say Bob and bob) are listed in the order in which the mapping holds them.
\<close>

theorem list_characters_stable:
  assumes "list_characters str_lower s = Inr cs"
  shows "filter (\<lambda>c. map_option fst (name_key str_lower c) = Some k) cs =
         filter (\<lambda>c. map_option fst (name_key str_lower c) = Some k) (map snd (characters s))"
proof -
  let ?vs = "map snd (characters s)"
  let ?P = "\<lambda>c. map_option fst (name_key str_lower c) = Some k"
  from assms obtain keyed where keyed: "those (map (name_key str_lower) ?vs) = Some keyed"
    and cs: "cs = map snd (sort_key fst keyed)"
    by (auto simp: list_characters_def split: option.splits)
  from keyed have eq: "map (name_key str_lower) ?vs = map Some keyed"
    by (rule those_map_Some)
  from eq have snd_keyed: "map snd keyed = ?vs"
    by (rule name_key_snd)
  have pair: "?P (snd p) \<longleftrightarrow> fst p = k" if "p \<in> set keyed" for p
  proof -
    from that obtain i where i: "i < length keyed" "keyed ! i = p"
      by (auto simp: in_set_conv_nth)
    from eq i have "name_key str_lower (?vs ! i) = Some p"
      by (metis length_map nth_map)
    moreover from snd_keyed i have "?vs ! i = snd p"
      by (metis length_map nth_map)
    ultimately show ?thesis
      by simp
  qed
  have "filter ?P cs = map snd (filter (\<lambda>p. ?P (snd p)) (sort_key fst keyed))"
    by (simp add: cs filter_map comp_def)
  also have "filter (\<lambda>p. ?P (snd p)) (sort_key fst keyed) =
      filter (\<lambda>p. fst p = k) (sort_key fst keyed)"
    by (rule filter_cong [OF refl]) (rule pair, simp)
  also have "\<dots> = filter (\<lambda>p. fst p = k) keyed"
    by (rule sort_key_stable)
  also have "\<dots> = filter (\<lambda>p. ?P (snd p)) keyed"
    by (rule filter_cong [OF refl]) (rule pair [symmetric], assumption)
  also have "map snd \<dots> = filter ?P (map snd keyed)"
    by (simp add: filter_map comp_def)
  finally show ?thesis
    by (simp add: snd_keyed)
qed

theorem list_characters_stable_witness:
  "map_sum id (map name)
     (list_characters lower (snd (save_character (sheet ''bob'' 3 ''2024-01-01T00:00:00'')
        (snd (save_character (sheet ''Anna'' 2 ''2024-01-01T00:00:00'')
          (snd (save_character (sheet ''Bob'' 1 ''2024-01-01T00:00:00'') empty_store))))))) =
     Inr [PStr ''Anna'', PStr ''Bob'', PStr ''bob'']"
proof -
  let ?s = "snd (save_character (sheet ''bob'' 3 ''2024-01-01T00:00:00'')
        (snd (save_character (sheet ''Anna'' 2 ''2024-01-01T00:00:00'')
          (snd (save_character (sheet ''Bob'' 1 ''2024-01-01T00:00:00'') empty_store)))))"
  obtain cs where cs: "list_characters lower ?s = Inr cs"
    by (simp add: save_character_str sheet_name empty_store_def list_characters_def name_key_def
        lower_def lower_char_def)
  note list_characters_stable [OF cs, of "''bob''"]
  then show ?thesis
    by (simp add: save_character_str sheet_name empty_store_def list_characters_def name_key_def
        lower_def lower_char_def sheet_def)
qed

text \<open>
  Names with a path separator. The name \<open>a/b\<close> leads through an entry \<open>a\<close> of the
  directory: the save raises \<open>FileNotFoundError\<close> (\<open>NotADirectoryError\<close> when a file
  \<open>a\<close> exists) after reading the clock, and writes and assigns nothing. The name
  \<open>./Bob\<close> leads to the entry \<open>Bob.json\<close>: the save writes that file and assigns the
  entry \<open>./Bob\<close>.
\<close>

theorem save_character_separator:
  "save_character (c\<lparr>name := PStr ''a/b''\<rparr>) s =
     (Inl (if ''a'' \<in> set (map fst (files s)) then NotADirectoryError else FileNotFoundError),
      s\<lparr>ticks := Suc (ticks s)\<rparr>) \<and>
   save_character (c\<lparr>name := PStr ''./Bob''\<rparr>) s =
     (Inr (), s\<lparr>ticks := Suc (ticks s),
        files := AList.update ''Bob.json''
          (Json (PDict (to_dict (c\<lparr>name := PStr ''./Bob'',
             modified_date := PStr (clock s (ticks s))\<rparr>)))) (files s),
        characters := AList.update (PStr ''./Bob'')
          (c\<lparr>name := PStr ''./Bob'', modified_date := PStr (clock s (ticks s))\<rparr>)
          (characters s)\<rparr>)"
  by (simp add: save_character_def now_isoformat_def Let_def locate_def path_parts_def
      filename_def)

end
